theory Spec2Isabelle
  imports Main "HOL-Library.Sublist" "HOL-Library.AList"
begin

section \<open>String primitives used by \<^verbatim>\<open>src/utils.ts\<close>\<close>

text \<open>
  A string is a list of characters: the operations below compare, cut and join
  sequences of code units and never look inside a unit.
  \<^verbatim>\<open>String.prototype.endsWith\<close> compares the last characters of the receiver with the
  search string, and is false when the search string is longer than the receiver.
\<close>

definition endsWith :: "string \<Rightarrow> string \<Rightarrow> bool" where
  "endsWith s searchString \<longleftrightarrow>
     length searchString \<le> length s \<and>
     drop (length s - length searchString) s = searchString"

text \<open>\<^verbatim>\<open>String.prototype.includes\<close>: the search string occurs at some position.\<close>

fun js_includes :: "string \<Rightarrow> string \<Rightarrow> bool" where
  "js_includes [] searchString \<longleftrightarrow> searchString = []"
| "js_includes (c # s) searchString \<longleftrightarrow>
     prefix searchString (c # s) \<or> js_includes s searchString"

text \<open>
  \<^verbatim>\<open>String.prototype.split\<close> with a separator of one character: the pieces between
  the occurrences of the separator, so that the empty string gives one empty piece.
\<close>

fun js_split :: "char \<Rightarrow> string \<Rightarrow> string list" where
  "js_split sep [] = [[]]"
| "js_split sep (c # s) =
     (if c = sep then [] # js_split sep s
      else (case js_split sep s of
              [] \<Rightarrow> [[c]]
            | p # ps \<Rightarrow> (c # p) # ps))"

section \<open>Export-type inference\<close>

datatype export_type = Esm | Cjs

text \<open>
  \<^verbatim>\<open>inferExportType(condition, previousConditions = [], filename = "")\<close>.
  The three suffix tests sit under \<^verbatim>\<open>if (filename)\<close>, which holds for a non-empty
  string; the \<^verbatim>\<open>switch\<close> follows, and its default branch walks the chain.
\<close>

fun inferExportType :: "string \<Rightarrow> string list \<Rightarrow> string \<Rightarrow> export_type" where
  "inferExportType condition [] filename =
     (if filename \<noteq> [] \<and> endsWith filename ''.d.ts'' then Esm
      else if filename \<noteq> [] \<and> endsWith filename ''.mjs'' then Esm
      else if filename \<noteq> [] \<and> endsWith filename ''.cjs'' then Cjs
      else if condition = ''import'' then Esm
      else if condition = ''require'' then Cjs
      else Esm)"
| "inferExportType condition (newCondition # rest) filename =
     (if filename \<noteq> [] \<and> endsWith filename ''.d.ts'' then Esm
      else if filename \<noteq> [] \<and> endsWith filename ''.mjs'' then Esm
      else if filename \<noteq> [] \<and> endsWith filename ''.cjs'' then Cjs
      else if condition = ''import'' then Esm
      else if condition = ''require'' then Cjs
      else inferExportType newCondition rest filename)"

text \<open>
  The reference definition, written from the five numbered steps of the specification:
  only the first step asks for a non-empty filename, and the last step either defaults
  or restarts with the head of the chain.
\<close>

fun inferExportType_spec :: "string \<Rightarrow> string list \<Rightarrow> string \<Rightarrow> export_type" where
  "inferExportType_spec c p f =
     (if f \<noteq> [] \<and> endsWith f ''.d.ts'' then Esm
      else if endsWith f ''.mjs'' then Esm
      else if endsWith f ''.cjs'' then Cjs
      else if c = ''import'' then Esm
      else if c = ''require'' then Cjs
      else (case p of [] \<Rightarrow> Esm | c' # p' \<Rightarrow> inferExportType_spec c' p' f))"

declare inferExportType_spec.simps [simp del]

section \<open>Suffix classification\<close>

text \<open>The five buckets of \<^verbatim>\<open>filesByType\<close>, as both condition builders compute them.\<close>

record files_by_type =
  mjs :: "string list"
  cjs :: "string list"
  dts :: "string list"
  dmts :: "string list"
  dcts :: "string list"

definition filesByType :: "string list \<Rightarrow> files_by_type" where
  "filesByType files =
     \<lparr> mjs = filter (\<lambda>f. endsWith f ''.mjs'') files,
       cjs = filter (\<lambda>f. endsWith f ''.cjs'') files,
       dts = filter (\<lambda>f. endsWith f ''.d.ts'') files,
       dmts = filter (\<lambda>f. endsWith f ''.d.mts'') files,
       dcts = filter (\<lambda>f. endsWith f ''.d.cts'') files \<rparr>"

definition suffixes :: "string list" where
  "suffixes = [''.mjs'', ''.cjs'', ''.d.ts'', ''.d.mts'', ''.d.cts'']"

section \<open>Exports-map generator\<close>

text \<open>
  An export value is either a path string or an object of conditions. An object keeps
  its keys in insertion order; assigning to a key that exists replaces the value in
  place, which is what \<open>AList.update\<close> does.
\<close>

datatype json = JString string | JObject "(string \<times> json) list"

text \<open>A build entry \<^verbatim>\<open>{ path: string; chunk?: boolean }\<close>; an absent flag is \<open>None\<close>.\<close>

record build_entry =
  path :: string
  chunk :: "bool option"

text \<open>The parameter \<^verbatim>\<open>exportImport: boolean | string[]\<close>.\<close>

datatype export_mode = Flag bool | Folders "string list"

text \<open>
  \<^verbatim>\<open>filename.replace(/\.(js|mjs|cjs|ts|mts|cts|json|jsx|tsx)$/, "")\<close>: the pattern is
  anchored at the end of the string and no alternative contains a dot, so it matches
  at one position at most, and the replacement removes that suffix.
\<close>

definition extensions :: "string list" where
  "extensions = [''js'', ''mjs'', ''cjs'', ''ts'', ''mts'', ''cts'', ''json'', ''jsx'', ''tsx'']"

definition removeExtension :: "string \<Rightarrow> string" where
  "removeExtension filename =
     (case find (\<lambda>e. endsWith filename (''.'' @ e)) extensions of
        None \<Rightarrow> filename
      | Some e \<Rightarrow> take (length filename - length (''.'' @ e)) filename)"

text \<open>
  \<^verbatim>\<open>generateExportConditions(files, outDir, prefix = "")\<close>. Every read of a first
  element is under the test that its bucket is non-empty. The parameter \<^verbatim>\<open>prefix\<close> is
  \<open>prefix'\<close> here.
\<close>

definition generateExportConditions :: "string list \<Rightarrow> string \<Rightarrow> string \<Rightarrow> json" where
  "generateExportConditions files outDir prefix' =
     (let t = filesByType files;
          hasDeclarationFiles =
            (length (dts t) > 0 \<or> length (dmts t) > 0 \<or> length (dcts t) > 0);
          out = (\<lambda>f. ''./'' @ outDir @ ''/'' @ prefix' @ f)
      in
        if length files = 1 \<and> \<not> hasDeclarationFiles \<and> \<not> js_includes (hd files) ''.d.''
        then JString (out (hd files))
        else
          let
            conditions0 = [];
            conditions1 =
              (if hasDeclarationFiles then
                 (if length (dts t) > 0 then
                    AList.update ''types'' (JString (out (hd (dts t)))) conditions0
                  else if length (dmts t) > 0 then
                    AList.update ''types'' (JString (out (hd (dmts t)))) conditions0
                  else if length (dcts t) > 0 then
                    AList.update ''types'' (JString (out (hd (dcts t)))) conditions0
                  else conditions0)
               else conditions0);
            conditions2 =
              (if length (mjs t) > 0 then
                 (let import0 = [(''default'', JString (out (hd (mjs t))))];
                      import1 =
                        (if length (dmts t) > 0 then
                           AList.update ''types'' (JString (out (hd (dmts t)))) import0
                         else if length (dts t) > 0 then
                           AList.update ''types'' (JString (out (hd (dts t)))) import0
                         else import0)
                  in AList.update ''import'' (JObject import1) conditions1)
               else conditions1);
            conditions3 =
              (if length (cjs t) > 0 then
                 (let require0 = [(''default'', JString (out (hd (cjs t))))];
                      require1 =
                        (if length (dcts t) > 0 then
                           AList.update ''types'' (JString (out (hd (dcts t)))) require0
                         else if length (dts t) > 0 then
                           AList.update ''types'' (JString (out (hd (dts t)))) require0
                         else require0)
                  in AList.update ''require'' (JObject require1) conditions2)
               else conditions2);
            conditions4 =
              (if length (mjs t) = 0 \<and> length (cjs t) = 0 \<and> hasDeclarationFiles then
                 (let
                    a = (if length (dmts t) > 0 then
                           AList.update ''import''
                             (JObject [(''types'', JString (out (hd (dmts t))))]) conditions3
                         else conditions3);
                    b = (if length (dcts t) > 0 then
                           AList.update ''require''
                             (JObject [(''types'', JString (out (hd (dcts t))))]) a
                         else a)
                  in
                    if length (dts t) > 0 \<and> map_of b ''import'' = None
                         \<and> map_of b ''require'' = None
                    then AList.update ''types'' (JString (out (hd (dts t)))) b
                    else b)
               else conditions3)
          in JObject conditions4)"

text \<open>
  \<^verbatim>\<open>generateFolderPatternExportConditions(files, outDir, folderName)\<close>: the same four
  steps, with one wildcard pattern for each suffix class and no bare-string case.
\<close>

definition generateFolderPatternExportConditions ::
    "string list \<Rightarrow> string \<Rightarrow> string \<Rightarrow> json" where
  "generateFolderPatternExportConditions files outDir folderName =
     (let t = filesByType files;
          conditions0 = [];
          hasDeclarationFiles =
            (length (dts t) > 0 \<or> length (dmts t) > 0 \<or> length (dcts t) > 0);
          pat = (\<lambda>ext. ''./'' @ outDir @ ''/'' @ folderName @ ''/*'' @ ext);
          conditions1 =
            (if hasDeclarationFiles then
               (if length (dts t) > 0 then
                  AList.update ''types'' (JString (pat ''.d.ts'')) conditions0
                else if length (dmts t) > 0 then
                  AList.update ''types'' (JString (pat ''.d.mts'')) conditions0
                else if length (dcts t) > 0 then
                  AList.update ''types'' (JString (pat ''.d.cts'')) conditions0
                else conditions0)
             else conditions0);
          conditions2 =
            (if length (mjs t) > 0 then
               (let import0 = [(''default'', JString (pat ''.mjs''))];
                    import1 =
                      (if length (dmts t) > 0 then
                         AList.update ''types'' (JString (pat ''.d.mts'')) import0
                       else if length (dts t) > 0 then
                         AList.update ''types'' (JString (pat ''.d.ts'')) import0
                       else import0)
                in AList.update ''import'' (JObject import1) conditions1)
             else conditions1);
          conditions3 =
            (if length (cjs t) > 0 then
               (let require0 = [(''default'', JString (pat ''.cjs''))];
                    require1 =
                      (if length (dcts t) > 0 then
                         AList.update ''types'' (JString (pat ''.d.cts'')) require0
                       else if length (dts t) > 0 then
                         AList.update ''types'' (JString (pat ''.d.ts'')) require0
                       else require0)
                in AList.update ''require'' (JObject require1) conditions2)
             else conditions2);
          conditions4 =
            (if length (mjs t) = 0 \<and> length (cjs t) = 0 \<and> hasDeclarationFiles then
               (let
                  a = (if length (dmts t) > 0 then
                         AList.update ''import''
                           (JObject [(''types'', JString (pat ''.d.mts''))]) conditions3
                       else conditions3);
                  b = (if length (dcts t) > 0 then
                         AList.update ''require''
                           (JObject [(''types'', JString (pat ''.d.cts''))]) a
                       else a)
                in
                  if length (dts t) > 0 \<and> map_of b ''import'' = None
                       \<and> map_of b ''require'' = None
                  then AList.update ''types'' (JString (pat ''.d.ts'')) b
                  else b)
             else conditions3)
      in JObject conditions4)"

text \<open>
  The test \<^verbatim>\<open>exportConditions && Object.keys(exportConditions).length > 0\<close>: a string
  is truthy when it is non-empty and has one key for each character; an object is
  always truthy and has its own keys.
\<close>

definition hasKeys :: "json \<Rightarrow> bool" where
  "hasKeys exportConditions =
     (case exportConditions of
        JString s \<Rightarrow> s \<noteq> [] \<and> length s > 0
      | JObject kvs \<Rightarrow> length kvs > 0)"

text \<open>
  The body of the first loop of \<^verbatim>\<open>generatePackageExports\<close>, for one entry. The
  groups are a \<^verbatim>\<open>Map\<close> from base key to the list of member paths, in insertion order;
  \<^verbatim>\<open>continue\<close> leaves the groups as they are.
\<close>

definition addEntry ::
    "bool \<Rightarrow> string list \<Rightarrow> (string \<times> string list) list \<Rightarrow> build_entry
      \<Rightarrow> (string \<times> string list) list" where
  "addEntry shouldIncludeAll filterFolders entryGroups entry =
     (if chunk entry = Some True \<and> \<not> js_includes (path entry) ''.d.'' then entryGroups
      else
        let
          pathWithoutExt0 = removeExtension (path entry);
          pathWithoutExt =
            (if endsWith pathWithoutExt0 ''.d''
             then take (length pathWithoutExt0 - 2) pathWithoutExt0
             else pathWithoutExt0);
          parts = js_split CHR ''/'' pathWithoutExt;
          baseKey = (if length parts > 1 then ''./'' @ hd parts else ''.'')
        in
          if \<not> shouldIncludeAll \<and> length filterFolders > 0
               \<and> hd parts \<notin> set filterFolders
          then entryGroups
          else
            let entryGroups1 =
                  (if map_of entryGroups baseKey = None
                   then AList.update baseKey [] entryGroups
                   else entryGroups)
            in AList.map_entry baseKey (\<lambda>files. files @ [path entry]) entryGroups1)"

definition isMainEntry :: "string \<Rightarrow> bool" where
  "isMainEntry baseKey \<longleftrightarrow> baseKey = ''.''"

definition hasFolderPattern :: "string \<Rightarrow> string list \<Rightarrow> bool" where
  "hasFolderPattern baseKey files \<longleftrightarrow>
     list_ex (\<lambda>f. js_includes f ''/'' \<and> \<not> isMainEntry baseKey) files"

text \<open>The body of the second loop, for one group.\<close>

definition emitGroup ::
    "string \<Rightarrow> (string \<times> json) list \<Rightarrow> string \<times> string list \<Rightarrow> (string \<times> json) list" where
  "emitGroup outDir exports g =
     (let baseKey = fst g; files = snd g in
        if isMainEntry baseKey then
          (let mainFiles =
                 filter (\<lambda>f. removeExtension f = ''index'' \<or> \<not> js_includes f ''/'') files
           in
             if length mainFiles > 0 then
               (let exportConditions = generateExportConditions mainFiles outDir []
                in if hasKeys exportConditions
                   then AList.update ''.'' exportConditions exports
                   else exports)
             else exports)
        else if hasFolderPattern baseKey files then
          (let folderName = drop 2 baseKey;
               exportConditions =
                 generateFolderPatternExportConditions files outDir folderName
           in if hasKeys exportConditions
              then AList.update (baseKey @ ''/*'') exportConditions exports
              else exports)
        else
          (let exportConditions = generateExportConditions files outDir []
           in if hasKeys exportConditions
              then AList.update baseKey exportConditions exports
              else exports))"

text \<open>The two loops, from the empty \<^verbatim>\<open>Map\<close> and the empty object.\<close>

definition groupEntries ::
    "build_entry list \<Rightarrow> export_mode \<Rightarrow> (string \<times> string list) list" where
  "groupEntries buildEntries exportImport =
     (let filterFolders = (case exportImport of Folders fs \<Rightarrow> fs | Flag b \<Rightarrow> []);
          shouldIncludeAll =
            (exportImport = Flag True \<or>
             (case exportImport of Folders fs \<Rightarrow> length fs = 0 | Flag b \<Rightarrow> False))
      in foldl (addEntry shouldIncludeAll filterFolders) [] buildEntries)"

definition assembleExports ::
    "build_entry list \<Rightarrow> string \<Rightarrow> export_mode \<Rightarrow> (string \<times> json) list" where
  "assembleExports buildEntries outDir exportImport =
     foldl (emitGroup outDir) [] (groupEntries buildEntries exportImport)"

text \<open>
  \<^verbatim>\<open>generatePackageExports(buildEntries, outDir, exportImport = false, pkg?)\<close>; the
  result \<^verbatim>\<open>undefined\<close> is \<open>None\<close>. The function never reads \<^verbatim>\<open>pkg\<close>.
\<close>

definition generatePackageExports ::
    "build_entry list \<Rightarrow> string \<Rightarrow> export_mode \<Rightarrow> (string \<times> json) list option" where
  "generatePackageExports buildEntries outDir exportImport =
     (if exportImport = Flag False then None
      else
        let exports = assembleExports buildEntries outDir exportImport
        in if length exports > 0 then Some exports else None)"

section \<open>Export filenames of a manifest\<close>

text \<open>
  \<^verbatim>\<open>OutputDescriptor = { file: string; type?: "esm" | "cjs" }\<close>; the field
  \<^verbatim>\<open>file\<close> is \<open>file'\<close> here.
\<close>

record output_descriptor =
  file' :: string
  type :: "export_type option"

text \<open>
  \<^verbatim>\<open>extractExportFilenames(exports, conditions = [])\<close>. The manifest's declaration is
  \<^verbatim>\<open>undefined\<close> (\<open>None\<close>), a string or a nested mapping, its pairs in the order
  of \<^verbatim>\<open>Object.entries\<close>. The first test, \<^verbatim>\<open>!exports\<close>, holds for \<^verbatim>\<open>undefined\<close> and
  for the empty string, and for no object.
\<close>

function extractExportFilenames ::
    "json option \<Rightarrow> string list \<Rightarrow> output_descriptor list" where
  "extractExportFilenames exports conditions =
     (case exports of
        None \<Rightarrow> []
      | Some (JString s) \<Rightarrow>
          if s = [] then [] else [\<lparr> file' = s, type = Some Esm \<rparr>]
      | Some (JObject kvs) \<Rightarrow>
          concat (map
            (\<lambda>(condition, exports').
               case exports' of
                 JString s \<Rightarrow>
                   [\<lparr> file' = s, type = Some (inferExportType condition conditions s) \<rparr>]
               | JObject kvs' \<Rightarrow>
                   extractExportFilenames (Some exports') (conditions @ [condition]))
            (filter (\<lambda>(subpath, v). \<not> endsWith subpath ''.json'') kvs)))"
  by pat_completeness auto
termination
proof -
  have mem: "size v < size (JObject kvs)"
    if "(k, v) \<in> set kvs" for k :: string and v :: json and kvs
    using that by (induction kvs) auto
  show ?thesis
    by (relation "measure (\<lambda>(e, c). case e of None \<Rightarrow> 0 | Some j \<Rightarrow> size j)")
       (auto dest: mem)
qed

declare extractExportFilenames.simps [simp del]

text \<open>
  The reference definition, written from the three cases of the specification: nothing
  for \<^verbatim>\<open>undefined\<close>, one ESM entry for a plain string, and for a mapping the pairs in
  order, each one skipped, emitted or descended into with the chain extended by its key.
\<close>

fun extract_spec :: "json \<Rightarrow> string list \<Rightarrow> output_descriptor list"
  and extract_pairs_spec :: "(string \<times> json) list \<Rightarrow> string list \<Rightarrow> output_descriptor list"
where
  "extract_spec (JString s) chain = [\<lparr> file' = s, type = Some Esm \<rparr>]"
| "extract_spec (JObject kvs) chain = extract_pairs_spec kvs chain"
| "extract_pairs_spec [] chain = []"
| "extract_pairs_spec ((k, v) # rest) chain =
     (if endsWith k ''.json'' then []
      else (case v of
              JString s \<Rightarrow> [\<lparr> file' = s, type = Some (inferExportType k chain s) \<rparr>]
            | JObject kvs \<Rightarrow> extract_pairs_spec kvs (chain @ [k])))
     @ extract_pairs_spec rest chain"

definition extractExportFilenames_spec ::
    "json option \<Rightarrow> string list \<Rightarrow> output_descriptor list" where
  "extractExportFilenames_spec exports chain =
     (case exports of None \<Rightarrow> [] | Some j \<Rightarrow> extract_spec j chain)"

section \<open>Reading an export value\<close>

text \<open>The value under a key of an object; a string has no such key.\<close>

fun getProp :: "string \<Rightarrow> json \<Rightarrow> json option" where
  "getProp k (JObject kvs) = map_of kvs k"
| "getProp k (JString s) = None"

text \<open>The nested read \<^verbatim>\<open>v.k1.k2\<close>, absent when \<^verbatim>\<open>v.k1\<close> is.\<close>

definition getProp2 :: "string \<Rightarrow> string \<Rightarrow> json \<Rightarrow> json option" where
  "getProp2 k1 k2 v = (case getProp k1 v of None \<Rightarrow> None | Some w \<Rightarrow> getProp k2 w)"

section \<open>Notions used by the proofs\<close>

text \<open>
  The two statements that end the body of the first loop, as one step: create the group
  of \<open>k\<close> when it is missing, then append \<open>p\<close> to it.
\<close>

definition pushPath ::
    "string \<Rightarrow> string \<Rightarrow> (string \<times> string list) list \<Rightarrow> (string \<times> string list) list" where
  "pushPath k p g =
     AList.map_entry k (\<lambda>files. files @ [p])
       (if map_of g k = None then AList.update k [] g else g)"

text \<open>
  What the first loop keeps true of the groups: the keys are distinct, no group is empty,
  and every member of a group other than the root one has a slash.
\<close>

definition groupsInv :: "(string \<times> string list) list \<Rightarrow> bool" where
  "groupsInv g \<longleftrightarrow>
     distinct (map fst g) \<and>
     (\<forall>k fs. map_of g k = Some fs \<longrightarrow>
        fs \<noteq> [] \<and> (k \<noteq> ''.'' \<longrightarrow> (\<forall>f \<in> set fs. CHR ''/'' \<in> set f)))"

text \<open>
  The function that \<open>extractExportFilenames\<close> maps over the pairs of a mapping.
\<close>

definition emitPair :: "string list \<Rightarrow> string \<times> json \<Rightarrow> output_descriptor list" where
  "emitPair conditions =
     (\<lambda>(condition, exports').
        case exports' of
          JString s \<Rightarrow> [\<lparr> file' = s, type = Some (inferExportType condition conditions s) \<rparr>]
        | JObject kvs' \<Rightarrow> extractExportFilenames (Some exports') (conditions @ [condition]))"

text \<open>
  "The first present" of a priority list of buckets: the first file of the first bucket
  that is not empty, and, for the wildcard patterns, the suffix attached to that bucket.
\<close>

definition firstFile :: "string list list \<Rightarrow> string option" where
  "firstFile buckets = (case concat buckets of [] \<Rightarrow> None | f # fs \<Rightarrow> Some f)"

definition firstSuffix :: "(string list \<times> string) list \<Rightarrow> string option" where
  "firstSuffix bs =
     (case find (\<lambda>b. fst b \<noteq> []) bs of None \<Rightarrow> None | Some b \<Rightarrow> Some (snd b))"

text \<open>
  The first segment of the extension-stripped path of an entry, which the first loop
  reads as \<^verbatim>\<open>parts[0]\<close>.
\<close>

definition topSegment :: "string \<Rightarrow> string" where
  "topSegment p =
     (let pathWithoutExt0 = removeExtension p;
          pathWithoutExt =
            (if endsWith pathWithoutExt0 ''.d''
             then take (length pathWithoutExt0 - 2) pathWithoutExt0
             else pathWithoutExt0)
      in hd (js_split CHR ''/'' pathWithoutExt))"

section \<open>Facts about the string primitives\<close>

lemma endsWith_suffix: "endsWith s t \<longleftrightarrow> suffix t s"
proof
  assume "endsWith s t"
  then have "drop (length s - length t) s = t"
    by (simp add: endsWith_def)
  then show "suffix t s"
    by (metis suffix_drop)
next
  assume "suffix t s"
  then obtain p where "s = p @ t"
    by (auto simp: suffix_def)
  then show "endsWith s t"
    by (simp add: endsWith_def)
qed

lemma endsWith_nonempty: "endsWith s (c # t) \<Longrightarrow> s \<noteq> []"
  by (auto simp: endsWith_def)

lemma endsWith_append: "endsWith (p @ t) t"
  by (simp add: endsWith_def)

lemma endsWith_two:
  assumes "endsWith s a" and "endsWith s b" and "length a \<le> length b"
  shows "endsWith b a"
proof -
  from assms(1,2) have "suffix a s" and "suffix b s"
    by (simp_all add: endsWith_suffix)
  then have "suffix a b \<or> suffix b a"
    by (rule suffix_same_cases)
  with assms(3) have "suffix a b"
    by (metis suffix_length_le suffix_order.eq_iff le_antisym
        suffix_def append_eq_append_conv append_self_conv2)
  then show ?thesis
    by (simp add: endsWith_suffix)
qed

lemma suffix_pairs:
  "\<not> (endsWith f ''.mjs'' \<and> endsWith f ''.cjs'')"
  "\<not> (endsWith f ''.mjs'' \<and> endsWith f ''.d.ts'')"
  "\<not> (endsWith f ''.mjs'' \<and> endsWith f ''.d.mts'')"
  "\<not> (endsWith f ''.mjs'' \<and> endsWith f ''.d.cts'')"
  "\<not> (endsWith f ''.cjs'' \<and> endsWith f ''.d.ts'')"
  "\<not> (endsWith f ''.cjs'' \<and> endsWith f ''.d.mts'')"
  "\<not> (endsWith f ''.cjs'' \<and> endsWith f ''.d.cts'')"
  "\<not> (endsWith f ''.d.ts'' \<and> endsWith f ''.d.mts'')"
  "\<not> (endsWith f ''.d.ts'' \<and> endsWith f ''.d.cts'')"
  "\<not> (endsWith f ''.d.mts'' \<and> endsWith f ''.d.cts'')"
proof -
  have clash: "\<not> (endsWith f a \<and> endsWith f b)"
    if "length a \<le> length b" and "\<not> endsWith b a" for a b
    using that endsWith_two by blast
  show
    "\<not> (endsWith f ''.mjs'' \<and> endsWith f ''.cjs'')"
    "\<not> (endsWith f ''.mjs'' \<and> endsWith f ''.d.ts'')"
    "\<not> (endsWith f ''.mjs'' \<and> endsWith f ''.d.mts'')"
    "\<not> (endsWith f ''.mjs'' \<and> endsWith f ''.d.cts'')"
    "\<not> (endsWith f ''.cjs'' \<and> endsWith f ''.d.ts'')"
    "\<not> (endsWith f ''.cjs'' \<and> endsWith f ''.d.mts'')"
    "\<not> (endsWith f ''.cjs'' \<and> endsWith f ''.d.cts'')"
    "\<not> (endsWith f ''.d.ts'' \<and> endsWith f ''.d.mts'')"
    "\<not> (endsWith f ''.d.ts'' \<and> endsWith f ''.d.cts'')"
    "\<not> (endsWith f ''.d.mts'' \<and> endsWith f ''.d.cts'')"
    by (rule clash; simp add: endsWith_def)+
qed

lemma js_split_nonempty: "js_split c s \<noteq> []"
  by (induction s) (auto split: list.splits)

lemma js_split_length: "1 < length (js_split c s) \<longleftrightarrow> c \<in> set s"
  using js_split_nonempty[of c]
  by (induction s) (auto split: list.splits)

lemma js_includes_char: "js_includes s [c] \<longleftrightarrow> c \<in> set s"
  by (induction s) auto

lemma removeExtension_take: "\<exists>n. removeExtension f = take n f"
proof (cases "find (\<lambda>e. endsWith f (''.'' @ e)) extensions")
  case None
  then have "removeExtension f = take (length f) f"
    by (simp add: removeExtension_def)
  then show ?thesis ..
next
  case (Some e)
  then show ?thesis
    by (auto simp: removeExtension_def)
qed

lemma removeExtension_subset: "set (removeExtension f) \<subseteq> set f"
  using removeExtension_take[of f] by (metis set_take_subset)

section \<open>The first loop keeps its invariant\<close>

lemma baseKey_slash:
  assumes "1 < length (js_split CHR ''/'' (if endsWith (removeExtension p) ''.d''
             then take (length (removeExtension p) - 2) (removeExtension p)
             else removeExtension p))"
  shows "CHR ''/'' \<in> set p"
proof -
  from assms have "CHR ''/'' \<in> set (if endsWith (removeExtension p) ''.d''
             then take (length (removeExtension p) - 2) (removeExtension p)
             else removeExtension p)"
    by (simp only: js_split_length)
  then have "CHR ''/'' \<in> set (removeExtension p)"
    by (auto split: if_splits dest: in_set_takeD)
  then show ?thesis
    using removeExtension_subset by blast
qed

lemma addEntry_cases:
  "addEntry S F g e = g \<or>
   (\<exists>k. (k \<noteq> ''.'' \<longrightarrow> CHR ''/'' \<in> set (path e)) \<and> addEntry S F g e = pushPath k (path e) g)"
proof -
  let ?w = "if endsWith (removeExtension (path e)) ''.d''
             then take (length (removeExtension (path e)) - 2) (removeExtension (path e))
             else removeExtension (path e)"
  let ?parts = "js_split CHR ''/'' ?w"
  let ?k = "if 1 < length ?parts then ''./'' @ hd ?parts else ''.''"
  have k: "?k \<noteq> ''.'' \<longrightarrow> CHR ''/'' \<in> set (path e)"
    using baseKey_slash[of "path e"] by (simp split: if_splits)
  have "addEntry S F g e = g \<or> addEntry S F g e = pushPath ?k (path e) g"
    unfolding addEntry_def pushPath_def Let_def by simp
  with k show ?thesis by blast
qed

lemma pushPath_inv:
  assumes "groupsInv g" and "k \<noteq> ''.'' \<longrightarrow> CHR ''/'' \<in> set p"
  shows "groupsInv (pushPath k p g)"
proof -
  let ?g1 = "if map_of g k = None then AList.update k [] g else g"
  from assms(1) have d: "distinct (map fst g)"
    and old: "\<And>k' fs. map_of g k' = Some fs \<Longrightarrow>
                fs \<noteq> [] \<and> (k' \<noteq> ''.'' \<longrightarrow> (\<forall>f \<in> set fs. CHR ''/'' \<in> set f))"
    unfolding groupsInv_def by blast+
  have d1: "distinct (map fst ?g1)"
    using d by (simp add: AList.distinct_update)
  then have d2: "distinct (map fst (pushPath k p g))"
    unfolding pushPath_def by (rule AList.distinct_map_entry)
  have m1: "map_of ?g1 = (if map_of g k = None then (map_of g)(k \<mapsto> []) else map_of g)"
    by (simp add: AList.update_conv')
  have m2: "map_of (pushPath k p g) k' =
      (if k' = k then Some ((case map_of g k of None \<Rightarrow> [] | Some fs \<Rightarrow> fs) @ [p])
       else map_of g k')" for k'
    unfolding pushPath_def AList.map_of_map_entry m1
    by (auto split: option.splits)
  have "fs \<noteq> [] \<and> (k' \<noteq> ''.'' \<longrightarrow> (\<forall>f \<in> set fs. CHR ''/'' \<in> set f))"
    if "map_of (pushPath k p g) k' = Some fs" for k' fs
  proof (cases "k' = k")
    case True
    with that have fs: "fs = (case map_of g k of None \<Rightarrow> [] | Some fs \<Rightarrow> fs) @ [p]"
      by (simp add: m2)
    show ?thesis
    proof (cases "map_of g k")
      case None
      with fs assms(2) True show ?thesis by simp
    next
      case (Some old_fs)
      with fs assms(2) True old[OF Some] show ?thesis by auto
    qed
  next
    case False
    with that have "map_of g k' = Some fs" by (simp add: m2)
    then show ?thesis by (rule old)
  qed
  with d2 show ?thesis
    unfolding groupsInv_def by blast
qed

lemma addEntry_inv:
  assumes "groupsInv g"
  shows "groupsInv (addEntry S F g e)"
  using addEntry_cases[of S F g e] assms pushPath_inv by metis

lemma foldl_addEntry_inv: "groupsInv g \<Longrightarrow> groupsInv (foldl (addEntry S F) g es)"
  by (induction es arbitrary: g) (auto simp: addEntry_inv)

lemma groupEntries_inv: "groupsInv (groupEntries es mode)"
  unfolding groupEntries_def Let_def
  by (rule foldl_addEntry_inv) (simp add: groupsInv_def)

lemma group_member:
  assumes "(k, fs) \<in> set (groupEntries es mode)"
  shows "fs \<noteq> []" and "k \<noteq> ''.'' \<Longrightarrow> f \<in> set fs \<Longrightarrow> js_includes f ''/''"
    and "isMainEntry k \<or> hasFolderPattern k fs"
proof -
  have inv: "groupsInv (groupEntries es mode)" by (rule groupEntries_inv)
  then have m: "map_of (groupEntries es mode) k = Some fs"
    using assms by (simp add: groupsInv_def)
  from inv m show ne: "fs \<noteq> []"
    unfolding groupsInv_def by blast
  from inv m show sl: "k \<noteq> ''.'' \<Longrightarrow> f \<in> set fs \<Longrightarrow> js_includes f ''/''" for f
    unfolding groupsInv_def by (simp add: js_includes_char)
  show "isMainEntry k \<or> hasFolderPattern k fs"
  proof (cases "k = ''.''")
    case True
    then show ?thesis by (simp add: isMainEntry_def)
  next
    case False
    from ne obtain f where "f \<in> set fs" by (cases fs) auto
    with sl False have "f \<in> set fs \<and> js_includes f ''/''" by simp
    with False show ?thesis
      by (auto simp: hasFolderPattern_def isMainEntry_def list_ex_iff)
  qed
qed

lemma groups_dispatch:
  assumes "g \<in> set (groupEntries es mode)"
  shows "isMainEntry (fst g) \<or> hasFolderPattern (fst g) (snd g)"
proof -
  from assms have "(fst g, snd g) \<in> set (groupEntries es mode)" by simp
  then show ?thesis by (rule group_member(3))
qed

section \<open>The keys that the second loop writes\<close>

lemma emitGroup_keys:
  assumes "isMainEntry k \<or> hasFolderPattern k fs"
  shows "fst ` set (emitGroup d ex (k, fs))
           \<subseteq> insert ''.'' (insert (k @ ''/*'') (fst ` set ex))"
proof (cases "isMainEntry k")
  case True
  then show ?thesis
    by (simp add: emitGroup_def Let_def AList.dom_update subset_insertI2)
next
  case False
  with assms have "hasFolderPattern k fs" by simp
  with False show ?thesis
    by (simp add: emitGroup_def Let_def AList.dom_update subset_insertI2)
qed

lemma foldl_emitGroup_keys:
  assumes "\<forall>key \<in> fst ` set ex. key = ''.'' \<or> endsWith key ''/*''"
    and "\<forall>g \<in> set gs. isMainEntry (fst g) \<or> hasFolderPattern (fst g) (snd g)"
  shows "\<forall>key \<in> fst ` set (foldl (emitGroup d) ex gs). key = ''.'' \<or> endsWith key ''/*''"
  using assms
proof (induction gs arbitrary: ex)
  case Nil
  then show ?case by simp
next
  case (Cons g gs)
  obtain k fs where g: "g = (k, fs)" by (cases g)
  have "isMainEntry k \<or> hasFolderPattern k fs"
    using Cons.prems(2) g by simp
  then have sub: "fst ` set (emitGroup d ex g)
      \<subseteq> insert ''.'' (insert (k @ ''/*'') (fst ` set ex))"
    unfolding g by (rule emitGroup_keys)
  have "\<forall>key \<in> fst ` set (emitGroup d ex g). key = ''.'' \<or> endsWith key ''/*''"
  proof
    fix key assume "key \<in> fst ` set (emitGroup d ex g)"
    with sub have "key = ''.'' \<or> key = k @ ''/*'' \<or> key \<in> fst ` set ex"
      by blast
    then show "key = ''.'' \<or> endsWith key ''/*''"
      using Cons.prems(1) endsWith_append[of k "''/*''"] by blast
  qed
  moreover have "\<forall>g \<in> set gs. isMainEntry (fst g) \<or> hasFolderPattern (fst g) (snd g)"
    using Cons.prems(2) by simp
  ultimately have "\<forall>key \<in> fst ` set (foldl (emitGroup d) (emitGroup d ex g) gs).
      key = ''.'' \<or> endsWith key ''/*''"
    by (rule Cons.IH)
  then show ?case by simp
qed

lemma generatePackageExports_Some:
  assumes "generatePackageExports es d mode = Some ex"
  shows "ex = foldl (emitGroup d) [] (groupEntries es mode)"
proof (cases "mode = Flag False")
  case True
  with assms show ?thesis by (simp add: generatePackageExports_def)
next
  case False
  with assms show ?thesis
    by (simp add: generatePackageExports_def assembleExports_def Let_def split: if_splits)
qed

lemmas generator_defs =
  generatePackageExports_def assembleExports_def groupEntries_def addEntry_def emitGroup_def
  removeExtension_def extensions_def endsWith_def isMainEntry_def hasFolderPattern_def
  hasKeys_def generateExportConditions_def generateFolderPatternExportConditions_def
  filesByType_def Let_def

section \<open>Skipped entries and the selective filter\<close>

lemma assembleExports_Nil: "assembleExports [] d mode = []"
  by (simp add: assembleExports_def groupEntries_def)

lemma addEntry_skip:
  "chunk e = Some True \<Longrightarrow> \<not> js_includes (path e) ''.d.'' \<Longrightarrow> addEntry S F g e = g"
  by (simp add: addEntry_def)

lemma addEntry_chunk_flag:
  "js_includes (path e) ''.d.'' \<Longrightarrow> addEntry S F g (e\<lparr>chunk := c\<rparr>) = addEntry S F g e"
  by (simp add: addEntry_def Let_def)

lemma groupEntries_skip:
  assumes "chunk e = Some True" and "\<not> js_includes (path e) ''.d.''"
  shows "groupEntries (xs @ e # ys) mode = groupEntries (xs @ ys) mode"
  using assms by (simp add: groupEntries_def Let_def addEntry_skip)

lemma groupEntries_chunk_flag:
  assumes "js_includes (path e) ''.d.''"
  shows "groupEntries (xs @ e\<lparr>chunk := c\<rparr> # ys) mode = groupEntries (xs @ e # ys) mode"
  using assms by (simp add: groupEntries_def Let_def addEntry_chunk_flag)

lemma generatePackageExports_groups:
  "groupEntries es mode = groupEntries es' mode \<Longrightarrow>
   generatePackageExports es d mode = generatePackageExports es' d mode"
  by (simp add: generatePackageExports_def assembleExports_def)

lemma addEntry_selective:
  assumes "F \<noteq> []"
  shows "addEntry False F g e =
           (if topSegment (path e) \<in> set F then addEntry True [] g e else g)"
  using assms by (simp add: addEntry_def topSegment_def Let_def)

lemma foldl_addEntry_selective:
  assumes "F \<noteq> []"
  shows "foldl (addEntry False F) g es =
           foldl (addEntry True []) g (filter (\<lambda>e. topSegment (path e) \<in> set F) es)"
  using assms by (induction es arbitrary: g) (simp_all add: addEntry_selective)

text \<open>
  In selective mode the generator sees exactly the entries whose first segment is one
  of the listed names, and treats them as the full mode does.
\<close>

lemma selective_mode_filter:
  assumes "L \<noteq> []"
  shows "generatePackageExports es d (Folders L) =
           generatePackageExports (filter (\<lambda>e. topSegment (path e) \<in> set L) es) d (Flag True)"
proof -
  have "groupEntries es (Folders L) =
          groupEntries (filter (\<lambda>e. topSegment (path e) \<in> set L) es) (Flag True)"
    using assms by (simp add: groupEntries_def foldl_addEntry_selective)
  then show ?thesis
    by (simp add: generatePackageExports_def assembleExports_def)
qed

text \<open>
  The example of selective mode: with the list \<^verbatim>\<open>["plugins"]\<close> the entries \<^verbatim>\<open>index.mjs\<close>
  and \<^verbatim>\<open>utils/helper.mjs\<close> leave no key.
\<close>

lemma selective_mode_example:
  "generatePackageExports
     [\<lparr> path = ''index.mjs'', chunk = None \<rparr>, \<lparr> path = ''plugins/vite.mjs'', chunk = None \<rparr>,
      \<lparr> path = ''utils/helper.mjs'', chunk = None \<rparr>]
     ''dist'' (Folders [''plugins'']) =
   Some [(''./plugins/*'',
          JObject [(''import'', JObject [(''default'', JString ''./dist/plugins/*.mjs'')])])]"
  by (simp add: generator_defs)

section \<open>The declaration priorities of the two condition builders\<close>

lemma generateExportConditions_types:
  "getProp ''types'' (generateExportConditions files outDir pfx) =
     map_option (\<lambda>f. JString (''./'' @ outDir @ ''/'' @ pfx @ f))
       (firstFile [dts (filesByType files), dmts (filesByType files), dcts (filesByType files)])"
  apply (cases "dts (filesByType files) = []"; cases "dmts (filesByType files) = []";
      cases "dcts (filesByType files) = []"; cases "mjs (filesByType files) = []";
      cases "cjs (filesByType files) = []")
  apply (simp_all add: generateExportConditions_def Let_def firstFile_def list.case_eq_if)
  done

lemma generateExportConditions_import:
  "mjs (filesByType files) \<noteq> [] \<Longrightarrow>
   getProp2 ''import'' ''types'' (generateExportConditions files outDir pfx) =
     map_option (\<lambda>f. JString (''./'' @ outDir @ ''/'' @ pfx @ f))
       (firstFile [dmts (filesByType files), dts (filesByType files)])"
  apply (cases "dts (filesByType files) = []"; cases "dmts (filesByType files) = []";
      cases "dcts (filesByType files) = []"; cases "cjs (filesByType files) = []")
  apply (simp_all add: generateExportConditions_def Let_def firstFile_def list.case_eq_if
      getProp2_def)
  done

lemma generateExportConditions_require:
  "cjs (filesByType files) \<noteq> [] \<Longrightarrow>
   getProp2 ''require'' ''types'' (generateExportConditions files outDir pfx) =
     map_option (\<lambda>f. JString (''./'' @ outDir @ ''/'' @ pfx @ f))
       (firstFile [dcts (filesByType files), dts (filesByType files)])"
  apply (cases "dts (filesByType files) = []"; cases "dmts (filesByType files) = []";
      cases "dcts (filesByType files) = []"; cases "mjs (filesByType files) = []")
  apply (simp_all add: generateExportConditions_def Let_def firstFile_def list.case_eq_if
      getProp2_def)
  done

lemma generateFolderPattern_types:
  "getProp ''types'' (generateFolderPatternExportConditions files outDir folderName) =
     map_option (\<lambda>ext. JString (''./'' @ outDir @ ''/'' @ folderName @ ''/*'' @ ext))
       (firstSuffix [(dts (filesByType files), ''.d.ts''), (dmts (filesByType files), ''.d.mts''),
          (dcts (filesByType files), ''.d.cts'')])"
  apply (cases "dts (filesByType files) = []"; cases "dmts (filesByType files) = []";
      cases "dcts (filesByType files) = []"; cases "mjs (filesByType files) = []";
      cases "cjs (filesByType files) = []")
  apply (simp_all add: generateFolderPatternExportConditions_def Let_def firstSuffix_def)
  done

lemma generateFolderPattern_import:
  "mjs (filesByType files) \<noteq> [] \<Longrightarrow>
   getProp2 ''import'' ''types'' (generateFolderPatternExportConditions files outDir folderName) =
     map_option (\<lambda>ext. JString (''./'' @ outDir @ ''/'' @ folderName @ ''/*'' @ ext))
       (firstSuffix [(dmts (filesByType files), ''.d.mts''), (dts (filesByType files), ''.d.ts'')])"
  apply (cases "dts (filesByType files) = []"; cases "dmts (filesByType files) = []";
      cases "dcts (filesByType files) = []"; cases "cjs (filesByType files) = []")
  apply (simp_all add: generateFolderPatternExportConditions_def Let_def firstSuffix_def
      getProp2_def)
  done

lemma generateFolderPattern_require:
  "cjs (filesByType files) \<noteq> [] \<Longrightarrow>
   getProp2 ''require'' ''types'' (generateFolderPatternExportConditions files outDir folderName) =
     map_option (\<lambda>ext. JString (''./'' @ outDir @ ''/'' @ folderName @ ''/*'' @ ext))
       (firstSuffix [(dcts (filesByType files), ''.d.cts''), (dts (filesByType files), ''.d.ts'')])"
  apply (cases "dts (filesByType files) = []"; cases "dmts (filesByType files) = []";
      cases "dcts (filesByType files) = []"; cases "mjs (filesByType files) = []")
  apply (simp_all add: generateFolderPatternExportConditions_def Let_def firstSuffix_def
      getProp2_def)
  done

section \<open>The extraction against its reference definition\<close>

lemma extract_object:
  "extractExportFilenames (Some (JObject kvs)) conditions =
     concat (map (emitPair conditions)
       (filter (\<lambda>(subpath, v). \<not> endsWith subpath ''.json'') kvs))"
  by (subst extractExportFilenames.simps) (simp add: emitPair_def)

lemma extract_string:
  "extractExportFilenames (Some (JString s)) conditions =
     (if s = [] then [] else [\<lparr> file' = s, type = Some Esm \<rparr>])"
  by (subst extractExportFilenames.simps) simp

lemma extract_undefined: "extractExportFilenames None conditions = []"
  by (subst extractExportFilenames.simps) simp

lemma extract_pairs:
  "j \<noteq> JString [] \<longrightarrow> extractExportFilenames (Some j) chain = extract_spec j chain"
  "concat (map (emitPair chain) (filter (\<lambda>(subpath, v). \<not> endsWith subpath ''.json'') kvs)) =
     extract_pairs_spec kvs chain"
proof (induction j chain and kvs chain rule: extract_spec_extract_pairs_spec.induct)
  case (1 s chain)
  show ?case by (simp add: extract_string)
next
  case (2 kvs chain)
  then show ?case by (simp add: extract_object)
next
  case (3 chain)
  show ?case by simp
next
  case (4 k v rest chain)
  show ?case
  proof (cases "endsWith k ''.json''")
    case True
    with 4 show ?thesis by simp
  next
    case False
    show ?thesis
    proof (cases v)
      case (JString s)
      with False 4 show ?thesis by (simp add: emitPair_def)
    next
      case (JObject kvs')
      with False 4 show ?thesis by (simp add: emitPair_def extract_object)
    qed
  qed
qed

section \<open>Theorems\<close>

text \<open>
  Claim C2. For every condition, chain and filename, \<open>inferExportType\<close> agrees with
  the five-step first-match-wins reference definition of the specification.
\<close>

theorem inferExportType_refines_spec:
  "inferExportType c p f = inferExportType_spec c p f"
proof (induction p arbitrary: c)
  case Nil
  show ?case
    by (subst inferExportType_spec.simps) (auto dest: endsWith_nonempty)
next
  case (Cons c' p')
  have ih: "inferExportType c' p' f = inferExportType_spec c' p' f"
    by (rule Cons.IH)
  show ?case
    by (subst inferExportType_spec.simps) (use ih in \<open>auto dest: endsWith_nonempty\<close>)
qed

text \<open>
  Claim C1. For the entries \<^verbatim>\<open>index.mjs\<close>, \<^verbatim>\<open>index.cjs\<close>, \<^verbatim>\<open>index.d.mts\<close>,
  \<^verbatim>\<open>index.d.cts\<close>, the output directory \<^verbatim>\<open>dist\<close> and the mode \<^verbatim>\<open>true\<close>, the result is
  the map with the single key \<^verbatim>\<open>.\<close> whose value has \<^verbatim>\<open>types\<close> \<^verbatim>\<open>./dist/index.d.mts\<close>,
  \<^verbatim>\<open>import\<close> with \<^verbatim>\<open>default\<close> \<^verbatim>\<open>./dist/index.mjs\<close> and \<^verbatim>\<open>types\<close> \<^verbatim>\<open>./dist/index.d.mts\<close>,
  and \<^verbatim>\<open>require\<close> with \<^verbatim>\<open>default\<close> \<^verbatim>\<open>./dist/index.cjs\<close> and \<^verbatim>\<open>types\<close>
  \<^verbatim>\<open>./dist/index.d.cts\<close>. The keys stand in the order in which the code assigns them.
\<close>

theorem generatePackageExports_main_entry:
  "generatePackageExports
     [\<lparr> path = ''index.mjs'', chunk = None \<rparr>, \<lparr> path = ''index.cjs'', chunk = None \<rparr>,
      \<lparr> path = ''index.d.mts'', chunk = None \<rparr>, \<lparr> path = ''index.d.cts'', chunk = None \<rparr>]
     ''dist'' (Flag True) =
   Some
     [(''.'',
       JObject
         [(''types'', JString ''./dist/index.d.mts''),
          (''import'',
           JObject
             [(''default'', JString ''./dist/index.mjs''),
              (''types'', JString ''./dist/index.d.mts'')]),
          (''require'',
           JObject
             [(''default'', JString ''./dist/index.cjs''),
              (''types'', JString ''./dist/index.d.cts'')])])]"
  by (simp add: generator_defs)

text \<open>
  Claim C7. For the entries \<^verbatim>\<open>types/index.d.ts\<close>, \<^verbatim>\<open>types/utils.d.mts\<close> and
  \<^verbatim>\<open>types/helpers.d.cts\<close>, the mode \<^verbatim>\<open>true\<close> and any output directory \<open>d\<close>, the
  result has the single key \<^verbatim>\<open>./types/*\<close>; its value has \<^verbatim>\<open>types\<close>, \<^verbatim>\<open>import.types\<close>
  and \<^verbatim>\<open>require.types\<close> set to the three wildcard patterns, and neither
  \<^verbatim>\<open>import.default\<close> nor \<^verbatim>\<open>require.default\<close>.
\<close>

theorem generatePackageExports_types_only:
  "generatePackageExports
     [\<lparr> path = ''types/index.d.ts'', chunk = None \<rparr>,
      \<lparr> path = ''types/utils.d.mts'', chunk = None \<rparr>,
      \<lparr> path = ''types/helpers.d.cts'', chunk = None \<rparr>]
     d (Flag True) =
   Some
     [(''./types/*'',
       JObject
         [(''types'', JString (''./'' @ d @ ''/types/*.d.ts'')),
          (''import'', JObject [(''types'', JString (''./'' @ d @ ''/types/*.d.mts''))]),
          (''require'', JObject [(''types'', JString (''./'' @ d @ ''/types/*.d.cts''))])])]"
  by (simp add: generator_defs)

text \<open>
  Claim C9. For every entry list, every group is non-empty and every member path of a
  group other than the root group \<^verbatim>\<open>.\<close> contains a slash, so that every group is either
  the main entry or passes the \<open>hasFolderPattern\<close> test: the last branch of the
  second loop, which needs both tests to fail, is never taken. Consequently every key of
  the returned map other than \<^verbatim>\<open>.\<close> ends with \<^verbatim>\<open>/*\<close>.
\<close>

theorem non_root_groups_folder_pattern:
  "(\<forall>g \<in> set (groupEntries es mode).
       snd g \<noteq> [] \<and>
       (fst g \<noteq> ''.'' \<longrightarrow> (\<forall>f \<in> set (snd g). js_includes f ''/'')) \<and>
       (isMainEntry (fst g) \<or> hasFolderPattern (fst g) (snd g))) \<and>
   (\<forall>ex. generatePackageExports es d mode = Some ex \<longrightarrow>
       (\<forall>key \<in> fst ` set ex. key \<noteq> ''.'' \<longrightarrow> endsWith key ''/*''))"
proof (intro conjI allI impI ballI)
  fix g assume "g \<in> set (groupEntries es mode)"
  then have mem: "(fst g, snd g) \<in> set (groupEntries es mode)" by simp
  show "snd g \<noteq> []" by (rule group_member(1)[OF mem])
  show "isMainEntry (fst g) \<or> hasFolderPattern (fst g) (snd g)"
    by (rule group_member(3)[OF mem])
  fix f assume "fst g \<noteq> ''.''" and "f \<in> set (snd g)"
  then show "js_includes f ''/''" by (rule group_member(2)[OF mem])
next
  fix ex key
  assume some: "generatePackageExports es d mode = Some ex"
    and key: "key \<in> fst ` set ex" "key \<noteq> ''.''"
  have ex: "ex = foldl (emitGroup d) [] (groupEntries es mode)"
    using some by (rule generatePackageExports_Some)
  have "\<forall>g \<in> set (groupEntries es mode).
      isMainEntry (fst g) \<or> hasFolderPattern (fst g) (snd g)"
    using groups_dispatch by blast
  then have "\<forall>key \<in> fst ` set (foldl (emitGroup d) [] (groupEntries es mode)).
      key = ''.'' \<or> endsWith key ''/*''"
    by (rule foldl_emitGroup_keys[rotated]) simp
  then have "key = ''.'' \<or> endsWith key ''/*''"
    using key(1) unfolding ex by (rule bspec)
  with key(2) show "endsWith key ''/*''"
    by simp
qed

theorem non_root_groups_folder_pattern_witness:
  "groupEntries
     [\<lparr> path = ''index.mjs'', chunk = None \<rparr>, \<lparr> path = ''plugins/vite.mjs'', chunk = None \<rparr>]
     (Flag True) =
     [(''.'', [''index.mjs'']), (''./plugins'', [''plugins/vite.mjs''])] \<and>
   js_includes ''plugins/vite.mjs'' ''/'' \<and>
   hasFolderPattern ''./plugins'' [''plugins/vite.mjs''] \<and>
   generatePackageExports
     [\<lparr> path = ''index.mjs'', chunk = None \<rparr>, \<lparr> path = ''plugins/vite.mjs'', chunk = None \<rparr>]
     ''dist'' (Flag True) =
     Some [(''.'', JString ''./dist/index.mjs''),
           (''./plugins/*'',
            JObject [(''import'', JObject [(''default'', JString ''./dist/plugins/*.mjs'')])])] \<and>
   endsWith ''./plugins/*'' ''/*''"
proof -
  let ?es = "[\<lparr> path = ''index.mjs'', chunk = None \<rparr>,
              \<lparr> path = ''plugins/vite.mjs'', chunk = None \<rparr>]"
  have g: "groupEntries ?es (Flag True) =
      [(''.'', [''index.mjs'']), (''./plugins'', [''plugins/vite.mjs''])]"
    by (simp add: generator_defs)
  have r: "generatePackageExports ?es ''dist'' (Flag True) =
      Some [(''.'', JString ''./dist/index.mjs''),
            (''./plugins/*'',
             JObject [(''import'', JObject [(''default'', JString ''./dist/plugins/*.mjs'')])])]"
    by (simp add: generator_defs)
  from non_root_groups_folder_pattern[of ?es "Flag True" "''dist''"]
  have "(\<forall>g \<in> set (groupEntries ?es (Flag True)).
           snd g \<noteq> [] \<and>
           (fst g \<noteq> ''.'' \<longrightarrow> (\<forall>f \<in> set (snd g). js_includes f ''/'')) \<and>
           (isMainEntry (fst g) \<or> hasFolderPattern (fst g) (snd g)))"
    and k: "\<forall>ex. generatePackageExports ?es ''dist'' (Flag True) = Some ex \<longrightarrow>
       (\<forall>key \<in> fst ` set ex. key \<noteq> ''.'' \<longrightarrow> endsWith key ''/*'')"
    by blast+
  then have "js_includes ''plugins/vite.mjs'' ''/'' \<and>
      hasFolderPattern ''./plugins'' [''plugins/vite.mjs'']"
    unfolding g by (simp add: isMainEntry_def)
  moreover from k r have "endsWith ''./plugins/*'' ''/*''"
    by simp
  ultimately show ?thesis
    using g r by blast
qed

text \<open>
  Claim C10. For every filename at most one of the five suffix tests \<^verbatim>\<open>.mjs\<close>,
  \<^verbatim>\<open>.cjs\<close>, \<^verbatim>\<open>.d.ts\<close>, \<^verbatim>\<open>.d.mts\<close>, \<^verbatim>\<open>.d.cts\<close> holds, so the five buckets of
  \<open>filesByType\<close> are pairwise disjoint; a name that ends with \<^verbatim>\<open>.d.mts\<close> ends with
  neither \<^verbatim>\<open>.mjs\<close> nor \<^verbatim>\<open>.d.ts\<close>.
\<close>

theorem suffix_classification_exclusive:
  "length (filter (endsWith f) suffixes) \<le> 1 \<and>
   (let t = filesByType files in
      set (mjs t) \<inter> set (cjs t) = {} \<and> set (mjs t) \<inter> set (dts t) = {} \<and>
      set (mjs t) \<inter> set (dmts t) = {} \<and> set (mjs t) \<inter> set (dcts t) = {} \<and>
      set (cjs t) \<inter> set (dts t) = {} \<and> set (cjs t) \<inter> set (dmts t) = {} \<and>
      set (cjs t) \<inter> set (dcts t) = {} \<and> set (dts t) \<inter> set (dmts t) = {} \<and>
      set (dts t) \<inter> set (dcts t) = {} \<and> set (dmts t) \<inter> set (dcts t) = {}) \<and>
   \<not> endsWith (p @ ''.d.mts'') ''.mjs'' \<and> \<not> endsWith (p @ ''.d.mts'') ''.d.ts''"
proof (intro conjI)
  show "length (filter (endsWith f) suffixes) \<le> 1"
    using suffix_pairs[of f] by (auto simp: suffixes_def)
  show "let t = filesByType files in
      set (mjs t) \<inter> set (cjs t) = {} \<and> set (mjs t) \<inter> set (dts t) = {} \<and>
      set (mjs t) \<inter> set (dmts t) = {} \<and> set (mjs t) \<inter> set (dcts t) = {} \<and>
      set (cjs t) \<inter> set (dts t) = {} \<and> set (cjs t) \<inter> set (dmts t) = {} \<and>
      set (cjs t) \<inter> set (dcts t) = {} \<and> set (dts t) \<inter> set (dmts t) = {} \<and>
      set (dts t) \<inter> set (dcts t) = {} \<and> set (dmts t) \<inter> set (dcts t) = {}"
    using suffix_pairs by (auto simp: filesByType_def Let_def)
  have e: "endsWith (p @ ''.d.mts'') ''.d.mts''"
    by (rule endsWith_append)
  show "\<not> endsWith (p @ ''.d.mts'') ''.mjs''"
    using suffix_pairs(3)[of "p @ ''.d.mts''"] e by blast
  show "\<not> endsWith (p @ ''.d.mts'') ''.d.ts''"
    using suffix_pairs(8)[of "p @ ''.d.mts''"] e by blast
qed

text \<open>
  Claim C3. For every list of files given to either condition builder: when a
  declaration file is present, the top-level \<^verbatim>\<open>types\<close> is the first present of
  \<^verbatim>\<open>.d.ts\<close>, \<^verbatim>\<open>.d.mts\<close>, \<^verbatim>\<open>.d.cts\<close> in that order; when an \<^verbatim>\<open>.mjs\<close> file is present,
  \<^verbatim>\<open>import.types\<close> is the first present of \<^verbatim>\<open>.d.mts\<close> then \<^verbatim>\<open>.d.ts\<close>, and is absent when
  neither exists; when a \<^verbatim>\<open>.cjs\<close> file is present, \<^verbatim>\<open>require.types\<close> is the first present
  of \<^verbatim>\<open>.d.cts\<close> then \<^verbatim>\<open>.d.ts\<close>, and is absent when neither exists. The literal builder
  writes the first file of the chosen bucket, the folder builder the wildcard pattern of
  the chosen suffix.
\<close>

theorem declaration_priority:
  "(let t = filesByType files;
        out = (\<lambda>f. JString (''./'' @ outDir @ ''/'' @ pfx @ f));
        r = generateExportConditions files outDir pfx
    in (dts t \<noteq> [] \<or> dmts t \<noteq> [] \<or> dcts t \<noteq> [] \<longrightarrow>
          getProp ''types'' r = map_option out (firstFile [dts t, dmts t, dcts t])) \<and>
       (mjs t \<noteq> [] \<longrightarrow>
          getProp2 ''import'' ''types'' r = map_option out (firstFile [dmts t, dts t])) \<and>
       (cjs t \<noteq> [] \<longrightarrow>
          getProp2 ''require'' ''types'' r = map_option out (firstFile [dcts t, dts t]))) \<and>
   (let t = filesByType files;
        pat = (\<lambda>ext. JString (''./'' @ outDir @ ''/'' @ folderName @ ''/*'' @ ext));
        r = generateFolderPatternExportConditions files outDir folderName
    in (dts t \<noteq> [] \<or> dmts t \<noteq> [] \<or> dcts t \<noteq> [] \<longrightarrow>
          getProp ''types'' r =
            map_option pat
              (firstSuffix [(dts t, ''.d.ts''), (dmts t, ''.d.mts''), (dcts t, ''.d.cts'')])) \<and>
       (mjs t \<noteq> [] \<longrightarrow>
          getProp2 ''import'' ''types'' r =
            map_option pat (firstSuffix [(dmts t, ''.d.mts''), (dts t, ''.d.ts'')])) \<and>
       (cjs t \<noteq> [] \<longrightarrow>
          getProp2 ''require'' ''types'' r =
            map_option pat (firstSuffix [(dcts t, ''.d.cts''), (dts t, ''.d.ts'')])))"
  unfolding Let_def
  using generateExportConditions_types[of files outDir pfx]
    generateExportConditions_import[of files outDir pfx]
    generateExportConditions_require[of files outDir pfx]
    generateFolderPattern_types[of files outDir folderName]
    generateFolderPattern_import[of files outDir folderName]
    generateFolderPattern_require[of files outDir folderName]
  by blast

theorem declaration_priority_witness:
  "getProp ''types''
     (generateExportConditions [''index.mjs'', ''index.cjs'', ''index.d.ts'', ''index.d.cts'']
        ''dist'' []) = Some (JString ''./dist/index.d.ts'') \<and>
   getProp2 ''import'' ''types''
     (generateExportConditions [''index.mjs'', ''index.cjs'', ''index.d.ts'', ''index.d.cts'']
        ''dist'' []) = Some (JString ''./dist/index.d.ts'') \<and>
   getProp2 ''require'' ''types''
     (generateExportConditions [''index.mjs'', ''index.cjs'', ''index.d.ts'', ''index.d.cts'']
        ''dist'' []) = Some (JString ''./dist/index.d.cts'') \<and>
   getProp ''types''
     (generateFolderPatternExportConditions
        [''index.mjs'', ''index.cjs'', ''index.d.ts'', ''index.d.cts''] ''dist'' ''plugins'') =
     Some (JString ''./dist/plugins/*.d.ts'') \<and>
   getProp2 ''import'' ''types''
     (generateFolderPatternExportConditions
        [''index.mjs'', ''index.cjs'', ''index.d.ts'', ''index.d.cts''] ''dist'' ''plugins'') =
     Some (JString ''./dist/plugins/*.d.ts'') \<and>
   getProp2 ''require'' ''types''
     (generateFolderPatternExportConditions
        [''index.mjs'', ''index.cjs'', ''index.d.ts'', ''index.d.cts''] ''dist'' ''plugins'') =
     Some (JString ''./dist/plugins/*.d.cts'')"
proof -
  let ?fs = "[''index.mjs'', ''index.cjs'', ''index.d.ts'', ''index.d.cts'']"
  have t: "filesByType ?fs =
      \<lparr> mjs = [''index.mjs''], cjs = [''index.cjs''], dts = [''index.d.ts''], dmts = [],
        dcts = [''index.d.cts''] \<rparr>"
    by (simp add: filesByType_def endsWith_def)
  from declaration_priority[of ?fs "''dist''" "[]" "''plugins''"] show ?thesis
    unfolding t Let_def by (simp add: firstFile_def firstSuffix_def)
qed

text \<open>
  Claim C4. The generator returns \<^verbatim>\<open>undefined\<close> exactly when the mode is \<^verbatim>\<open>false\<close> or
  the assembled mapping has no key, and returns the assembled mapping otherwise; it
  returns \<^verbatim>\<open>undefined\<close> for the empty entry list in every mode, and in mode \<^verbatim>\<open>false\<close>
  for every entry list.
\<close>

theorem generatePackageExports_undefined_iff:
  "generatePackageExports es d mode =
     (if mode = Flag False \<or> assembleExports es d mode = [] then None
      else Some (assembleExports es d mode)) \<and>
   generatePackageExports [] d mode = None \<and>
   generatePackageExports es d (Flag False) = None"
  by (simp add: generatePackageExports_def assembleExports_Nil Let_def)

text \<open>
  Claim C5. An entry whose \<^verbatim>\<open>chunk\<close> flag is true and whose path does not contain
  \<^verbatim>\<open>.d.\<close> contributes nothing: removing it from any entry list leaves the result as it
  is. A chunk entry whose path contains \<^verbatim>\<open>.d.\<close> is kept: it is treated as the same entry
  without the flag. For \<^verbatim>\<open>index.mjs\<close> and the chunk \<^verbatim>\<open>chunk-1.mjs\<close>, with \<^verbatim>\<open>dist\<close> and
  mode \<^verbatim>\<open>true\<close>, the result is the bare path \<^verbatim>\<open>./dist/index.mjs\<close> under the key \<^verbatim>\<open>.\<close>.
\<close>

theorem chunk_entries_eligibility:
  "(chunk e = Some True \<and> \<not> js_includes (path e) ''.d.'' \<longrightarrow>
      generatePackageExports (xs @ e # ys) d mode = generatePackageExports (xs @ ys) d mode) \<and>
   (js_includes (path e) ''.d.'' \<longrightarrow>
      generatePackageExports (xs @ e # ys) d mode =
      generatePackageExports (xs @ e\<lparr>chunk := None\<rparr> # ys) d mode) \<and>
   generatePackageExports
     [\<lparr> path = ''index.mjs'', chunk = None \<rparr>, \<lparr> path = ''chunk-1.mjs'', chunk = Some True \<rparr>]
     ''dist'' (Flag True) = Some [(''.'', JString ''./dist/index.mjs'')]"
proof (intro conjI impI)
  assume "chunk e = Some True \<and> \<not> js_includes (path e) ''.d.''"
  then have "groupEntries (xs @ e # ys) mode = groupEntries (xs @ ys) mode"
    by (simp add: groupEntries_skip)
  then show "generatePackageExports (xs @ e # ys) d mode =
      generatePackageExports (xs @ ys) d mode"
    by (rule generatePackageExports_groups)
next
  assume "js_includes (path e) ''.d.''"
  then have "groupEntries (xs @ e # ys) mode =
      groupEntries (xs @ e\<lparr>chunk := None\<rparr> # ys) mode"
    by (simp add: groupEntries_chunk_flag)
  then show "generatePackageExports (xs @ e # ys) d mode =
      generatePackageExports (xs @ e\<lparr>chunk := None\<rparr> # ys) d mode"
    by (rule generatePackageExports_groups)
next
  show "generatePackageExports
     [\<lparr> path = ''index.mjs'', chunk = None \<rparr>, \<lparr> path = ''chunk-1.mjs'', chunk = Some True \<rparr>]
     ''dist'' (Flag True) = Some [(''.'', JString ''./dist/index.mjs'')]"
    by (simp add: generator_defs)
qed

theorem chunk_entries_eligibility_witness:
  "generatePackageExports
     [\<lparr> path = ''index.mjs'', chunk = None \<rparr>, \<lparr> path = ''chunk-1.mjs'', chunk = Some True \<rparr>]
     ''dist'' (Flag True) =
   generatePackageExports [\<lparr> path = ''index.mjs'', chunk = None \<rparr>] ''dist'' (Flag True) \<and>
   generatePackageExports
     [\<lparr> path = ''index.mjs'', chunk = None \<rparr>, \<lparr> path = ''types.d.mts'', chunk = Some True \<rparr>]
     ''dist'' (Flag True) =
   Some [(''.'', JObject [(''types'', JString ''./dist/types.d.mts''),
                         (''import'', JObject [(''default'', JString ''./dist/index.mjs''),
                                               (''types'', JString ''./dist/types.d.mts'')])])]"
proof -
  let ?i = "\<lparr> path = ''index.mjs'', chunk = None \<rparr>"
  let ?c = "\<lparr> path = ''chunk-1.mjs'', chunk = Some True \<rparr>"
  let ?t = "\<lparr> path = ''types.d.mts'', chunk = Some True \<rparr>"
  have "chunk ?c = Some True \<and> \<not> js_includes (path ?c) ''.d.''"
    by simp
  with chunk_entries_eligibility[of ?c "[?i]" "[]" "''dist''" "Flag True"]
  have a: "generatePackageExports [?i, ?c] ''dist'' (Flag True) =
      generatePackageExports [?i] ''dist'' (Flag True)"
    by simp
  have "js_includes (path ?t) ''.d.''"
    by simp
  with chunk_entries_eligibility[of ?t "[?i]" "[]" "''dist''" "Flag True"]
  have "generatePackageExports [?i, ?t] ''dist'' (Flag True) =
      generatePackageExports [?i, ?t\<lparr>chunk := None\<rparr>] ''dist'' (Flag True)"
    by simp
  also have "\<dots> =
      Some [(''.'', JObject [(''types'', JString ''./dist/types.d.mts''),
                            (''import'', JObject [(''default'', JString ''./dist/index.mjs''),
                                                  (''types'', JString ''./dist/types.d.mts'')])])]"
    by (simp add: generator_defs)
  finally show ?thesis
    using a by simp
qed

text \<open>
  Claim C6. In selective mode only the entries whose first segment is in the list reach
  the output (\<open>selective_mode_filter\<close>), and the example of the claim holds
  (\<open>selective_mode_example\<close>). A root-level entry is not always excluded: its only
  segment is its name without the extension, and the filter compares that name with the
  folder list. With the list \<^verbatim>\<open>["plugins"]\<close>, the root-level file \<^verbatim>\<open>plugins.mjs\<close> is
  exported under the key \<^verbatim>\<open>.\<close> beside the folder \<^verbatim>\<open>plugins\<close>.
\<close>

theorem selective_mode_root_entry_kept:
  "generatePackageExports
     [\<lparr> path = ''plugins.mjs'', chunk = None \<rparr>, \<lparr> path = ''plugins/vite.mjs'', chunk = None \<rparr>]
     ''dist'' (Folders [''plugins'']) =
   Some [(''.'', JString ''./dist/plugins.mjs''),
         (''./plugins/*'',
          JObject [(''import'', JObject [(''default'', JString ''./dist/plugins/*.mjs'')])])]"
  by (simp add: generator_defs)

text \<open>
  Claim C8, as stated: applied to any plain string \<open>s\<close>, the extraction returns the
  single entry with file \<open>s\<close> and type ESM. It fails for the empty string, which the
  first test of the function takes for an absent declaration.
\<close>

theorem extractExportFilenames_empty_string:
  "extractExportFilenames (Some (JString [])) [] = [] \<and>
   extractExportFilenames (Some (JString [])) [] \<noteq> [\<lparr> file' = [], type = Some Esm \<rparr>] \<and>
   extractExportFilenames (Some (JString [])) [] \<noteq>
     extractExportFilenames_spec (Some (JString [])) []"
  by (simp add: extract_string extractExportFilenames_spec_def)

text \<open>
  Claim C8, amended. Applied to \<^verbatim>\<open>undefined\<close> or to the empty string, the extraction
  returns the empty list; applied to any other declaration it agrees with the
  reference definition: one ESM entry for a non-empty string, and for a mapping the
  entries of its pairs in order, the keys ending in \<^verbatim>\<open>.json\<close> skipped, a string value
  typed by \<open>inferExportType\<close> with the chain so far, a mapping value descended into
  with the chain extended by the key.
\<close>

theorem extractExportFilenames_refines_spec:
  "extractExportFilenames None conditions = [] \<and>
   extractExportFilenames (Some (JString [])) conditions = [] \<and>
   (exports \<noteq> Some (JString []) \<longrightarrow>
      extractExportFilenames exports conditions =
      extractExportFilenames_spec exports conditions)"
proof (intro conjI impI)
  show "extractExportFilenames None conditions = []"
    by (rule extract_undefined)
  show "extractExportFilenames (Some (JString [])) conditions = []"
    by (simp add: extract_string)
  assume ne: "exports \<noteq> Some (JString [])"
  show "extractExportFilenames exports conditions =
      extractExportFilenames_spec exports conditions"
  proof (cases exports)
    case None
    then show ?thesis
      by (simp add: extract_undefined extractExportFilenames_spec_def)
  next
    case (Some j)
    with ne have "j \<noteq> JString []" by simp
    with extract_pairs(1)[of j conditions] Some show ?thesis
      by (simp add: extractExportFilenames_spec_def)
  qed
qed

theorem extractExportFilenames_refines_spec_witness:
  "extractExportFilenames
     (Some (JObject
        [(''require'',
          JObject [(''node'', JString ''test''),
                   (''other'', JObject [(''import'', JString ''this''),
                                        (''require'', JString ''that'')])]),
         (''./package.json'', JString ''./package.json'')])) [] =
   [\<lparr> file' = ''test'', type = Some Cjs \<rparr>, \<lparr> file' = ''this'', type = Some Esm \<rparr>,
    \<lparr> file' = ''that'', type = Some Cjs \<rparr>]"
proof -
  let ?x = "Some (JObject
        [(''require'',
          JObject [(''node'', JString ''test''),
                   (''other'', JObject [(''import'', JString ''this''),
                                        (''require'', JString ''that'')])]),
         (''./package.json'', JString ''./package.json'')])"
  have "?x \<noteq> Some (JString [])" by simp
  with extractExportFilenames_refines_spec[of "[]" ?x]
  have "extractExportFilenames ?x [] = extractExportFilenames_spec ?x []"
    by blast
  also have "\<dots> =
      [\<lparr> file' = ''test'', type = Some Cjs \<rparr>, \<lparr> file' = ''this'', type = Some Esm \<rparr>,
       \<lparr> file' = ''that'', type = Some Cjs \<rparr>]"
    by (simp add: extractExportFilenames_spec_def endsWith_def)
  finally show ?thesis .
qed

end
